theory Spec2Isabelle
  imports Main "HOL-Library.Word"
begin

section \<open>Values\<close>

text \<open>
  \<^verbatim>\<open>type Value interface { IsValue() }\<close>, \<^verbatim>\<open>type Symbol int\<close> and
  \<^verbatim>\<open>type Tree struct { Children []Value }\<close>.
  A variable of interface type \<^verbatim>\<open>Value\<close> is either nil (the zero value, which
  is what a freshly allocated backing array holds) or a dynamic value. \<open>Symbol\<close>
  carries a Go \<^verbatim>\<open>int\<close>, read here as a mathematical integer (every value the
  evaluator stores comes from an \<^verbatim>\<open>int32\<close>). In the source the marker method of
  \<^verbatim>\<open>*Tree\<close> is \<^verbatim>\<open>IsChild\<close>, not \<^verbatim>\<open>IsValue\<close>; the model admits trees as
  stack values all the same, which only enlarges the set of states covered.
\<close>

type_synonym int32 = "32 word"

datatype val = NilValue | Symbol int | Tree "val list"

fun is_Symbol :: "val \<Rightarrow> bool" where
  "is_Symbol (Symbol i) = True"
| "is_Symbol v = False"

section \<open>Slices\<close>

text \<open>
  A Go slice is a view (pointer, length, capacity) of a backing array. The
  model keeps the \<^verbatim>\<open>len\<close> visible elements in \<open>elems\<close> and the
  \<^verbatim>\<open>cap - len\<close> array slots behind them in \<open>spare\<close>, so that
  \<^verbatim>\<open>len(s) = length (elems s)\<close> and
  \<^verbatim>\<open>cap(s) = length (elems s) + length (spare s)\<close>; the nil slice is
  \<open>\<lparr>elems = [], spare = []\<rparr>\<close>. The slices of one \<^verbatim>\<open>Runtime\<close> are taken
  not to share a backing array.
\<close>

record slice =
  elems :: "val list"
  spare :: "val list"

definition nil_slice :: slice where
  "nil_slice = \<lparr>elems = [], spare = []\<rparr>"

definition len :: "slice \<Rightarrow> nat" where
  "len s = length (elems s)"

definition cap :: "slice \<Rightarrow> nat" where
  "cap s = length (elems s) + length (spare s)"

text \<open>\<^verbatim>\<open>s[i]\<close>: \<open>None\<close> is the run-time panic "index out of range".\<close>

definition slice_index :: "slice \<Rightarrow> int \<Rightarrow> val option" where
  "slice_index s i =
     (if 0 \<le> i \<and> i < int (len s) then Some (elems s ! nat i) else None)"

text \<open>
  \<^verbatim>\<open>s[:hi]\<close>: for a slice operand the upper bound is checked against the
  capacity, not the length; \<open>None\<close> is the panic "slice bounds out of range".
\<close>

definition slice_to :: "slice \<Rightarrow> int \<Rightarrow> slice option" where
  "slice_to s hi =
     (if 0 \<le> hi \<and> hi \<le> int (cap s)
      then Some \<lparr>elems = take (nat hi) (elems s @ spare s),
                 spare = drop (nat hi) (elems s @ spare s)\<rparr>
      else None)"

text \<open>
  \<^verbatim>\<open>append(s, xs...)\<close>: written in place when the capacity suffices,
  otherwise copied to a new zeroed array. How much room the new array has
  beyond the new length is the Go run-time's choice; it is the parameter
  \<open>grow\<close>, given the old capacity and the new length.
\<close>

definition append_slice :: "(nat \<Rightarrow> nat \<Rightarrow> nat) \<Rightarrow> slice \<Rightarrow> val list \<Rightarrow> slice" where
  "append_slice grow s xs =
     (if length xs \<le> length (spare s)
      then \<lparr>elems = elems s @ xs, spare = drop (length xs) (spare s)\<rparr>
      else \<lparr>elems = elems s @ xs,
            spare = replicate (grow (cap s) (len s + length xs)) NilValue\<rparr>)"

section \<open>Instructions, errors and the evaluator state\<close>

text \<open>
  Modelled from the spec: the generated protobuf package \<^verbatim>\<open>pb\<close>
  (\<^verbatim>\<open>pb.Operation\<close> with its oneof \<^verbatim>\<open>Op\<close>, \<^verbatim>\<open>pb.Push\<close>, \<^verbatim>\<open>pb.Permute\<close>) is
  not among the sources. The fields are those the evaluator reads and the
  test helpers \<^verbatim>\<open>Push(symbolIdx int32)\<close> and
  \<^verbatim>\<open>Permute(pop int32, push ...int32)\<close> set: \<^verbatim>\<open>SymbolIdx\<close>, \<^verbatim>\<open>Pop\<close> and
  \<^verbatim>\<open>Push\<close>, all signed 32-bit. \<open>Unset\<close> is an operation whose oneof holds
  neither case. The message inside a set oneof is taken to be present, as the
  test helpers build it.
\<close>

datatype Operation = Push int32 | Permute int32 "int32 list" | Unset

text \<open>
  \<^verbatim>\<open>errors.New(msg)\<close> and \<^verbatim>\<open>fmt.Errorf(format, args...)\<close>; the arguments of
  the only \<^verbatim>\<open>Errorf\<close> call are integers.
\<close>

datatype error = ErrorsNew string | Errorf string "int list"

definition Err :: error where
  "Err = ErrorsNew ''misc error''"

datatype panic = BadOpcode | IndexOutOfRange | SliceBoundsOutOfRange

text \<open>What a call does: return nil, return an error, or panic.\<close>

datatype outcome = Ok | Failed error | Panicked panic

record Runtime =
  Symbols :: "string list"
  Stack :: slice
  Log :: slice

section \<open>The evaluator\<close>

text \<open>
  Lengths and the conversions \<^verbatim>\<open>int(x)\<close> of an \<^verbatim>\<open>int32\<close> are read as
  mathematical integers: with the 64-bit \<^verbatim>\<open>int\<close> of the usual platforms the
  differences below cannot overflow, and where a 32-bit \<^verbatim>\<open>int\<close> would wrap
  around, the wrapped and the exact value are both out of bounds.

  \<^verbatim>\<open>return r.Stack[len(r.Stack)-1-int(idx)]\<close>
\<close>

definition get :: "Runtime \<Rightarrow> int32 \<Rightarrow> val option" where
  "get r idx = slice_index (Stack r) (int (len (Stack r)) - 1 - sint idx)"

definition push :: "(nat \<Rightarrow> nat \<Rightarrow> nat) \<Rightarrow> Runtime \<Rightarrow> int32 \<Rightarrow> outcome \<times> Runtime" where
  "push grow r SymbolIdx =
     (if int (length (Symbols r)) \<le> sint SymbolIdx then (Failed Err, r)
      else (Ok, r\<lparr>Stack := append_slice grow (Stack r) [Symbol (sint SymbolIdx)]\<rparr>))"

text \<open>
  The \<^verbatim>\<open>for _, idx := range p.Push\<close> loop of \<^verbatim>\<open>permute\<close>: \<open>Inl\<close> is the
  early exit (the returned \<^verbatim>\<open>Err\<close>, or the panic of \<^verbatim>\<open>get\<close>), \<open>Inr\<close> the
  local slice \<^verbatim>\<open>pushes\<close> once the loop is through. Only the elements of
  \<^verbatim>\<open>pushes\<close> are ever read, so it is a list.
\<close>

fun permute_loop :: "Runtime \<Rightarrow> int32 \<Rightarrow> int32 list \<Rightarrow> val list \<Rightarrow> outcome + val list" where
  "permute_loop r Pop [] pushes = Inr pushes"
| "permute_loop r Pop (idx # rest) pushes =
     (if sint Pop \<le> sint idx then Inl (Failed Err)
      else case get r idx of
             None \<Rightarrow> Inl (Panicked IndexOutOfRange)
           | Some v \<Rightarrow> permute_loop r Pop rest (pushes @ [v]))"

definition permute ::
  "(nat \<Rightarrow> nat \<Rightarrow> nat) \<Rightarrow> Runtime \<Rightarrow> int32 \<Rightarrow> int32 list \<Rightarrow> outcome \<times> Runtime" where
  "permute grow r Pop Push_list =
     (if int (len (Stack r)) < sint Pop
      then (Failed (Errorf ''Cannot permute top %d elements of stack with size %d''
                      [sint Pop, int (len (Stack r))]), r)
      else case permute_loop r Pop Push_list [] of
             Inl out \<Rightarrow> (out, r)
           | Inr pushes \<Rightarrow>
               (case slice_to (Stack r) (int (len (Stack r)) - sint Pop) of
                  None \<Rightarrow> (Panicked SliceBoundsOutOfRange, r)
                | Some s \<Rightarrow> (Ok, r\<lparr>Stack := append_slice grow s pushes\<rparr>)))"

fun Eval :: "(nat \<Rightarrow> nat \<Rightarrow> nat) \<Rightarrow> Runtime \<Rightarrow> Operation \<Rightarrow> outcome \<times> Runtime" where
  "Eval grow r (Push SymbolIdx) = push grow r SymbolIdx"
| "Eval grow r (Permute Pop Push_list) = permute grow r Pop Push_list"
| "Eval grow r Unset = (Panicked BadOpcode, r)"

text \<open>The stack as the caller inspects it, bottom first, top last.\<close>

definition stack_of :: "Runtime \<Rightarrow> val list" where
  "stack_of r = elems (Stack r)"

definition log_of :: "Runtime \<Rightarrow> val list" where
  "log_of r = elems (Log r)"

section \<open>Fixtures of the test file\<close>

text \<open>
  \<^verbatim>\<open>symbols := []string{"A", "B", "C", "D", "E"}\<close> and
  \<^verbatim>\<open>rt := Runtime{Symbols: symbols}\<close>, whose stack and log are nil slices.
\<close>

definition symbols :: "string list" where
  "symbols = [''A'', ''B'', ''C'', ''D'', ''E'']"

definition new_Runtime :: "string list \<Rightarrow> Runtime" where
  "new_Runtime syms = \<lparr>Symbols = syms, Stack = nil_slice, Log = nil_slice\<rparr>"

text \<open>
  A driver that evaluates a list of instructions in order and stops at the
  first one that does not return nil. (The loop over \<^verbatim>\<open>tc.steps\<close> in the
  test file reports such a step and goes on with the next; the two agree on
  every list in which no step but the last fails.)
\<close>

fun run :: "(nat \<Rightarrow> nat \<Rightarrow> nat) \<Rightarrow> Runtime \<Rightarrow> Operation list \<Rightarrow> outcome \<times> Runtime" where
  "run grow r [] = (Ok, r)"
| "run grow r (op # ops) =
     (case Eval grow r op of
        (Ok, r') \<Rightarrow> run grow r' ops
      | (out, r') \<Rightarrow> (out, r'))"

text \<open>
  One growth policy to run concrete inputs with: the new array has twice the
  old capacity, or just the room needed when that is more. For a slice of
  interface values grown one element at a time from nil this gives the
  capacities 1, 2, 4, 8 of the Go run-time.
\<close>

definition double_cap :: "nat \<Rightarrow> nat \<Rightarrow> nat" where
  "double_cap oldcap newlen = max (2 * oldcap) newlen - newlen"

text \<open>The stack \<^verbatim>\<open>[A, B, C, D]\<close> of the test cases, in an array of exactly four slots.\<close>

text \<open>
  The evaluator after three \<^verbatim>\<open>Push(0)\<close> from fresh under \<open>double_cap\<close>: the
  stack \<^verbatim>\<open>[A, A, A]\<close> in an array of four slots, the last one still zero.
\<close>

definition aaa :: Runtime where
  "aaa = \<lparr>Symbols = symbols,
          Stack = \<lparr>elems = [Symbol 0, Symbol 0, Symbol 0], spare = [NilValue]\<rparr>,
          Log = nil_slice\<rparr>"

definition abcd :: Runtime where
  "abcd = \<lparr>Symbols = symbols,
           Stack = \<lparr>elems = [Symbol 0, Symbol 1, Symbol 2, Symbol 3], spare = []\<rparr>,
           Log = nil_slice\<rparr>"

section \<open>The words of the specification\<close>

text \<open>
  The window is the top \<open>n\<close> elements of the stack indexed by depth from the
  top: index 0 is the top element, index \<open>n - 1\<close> the deepest one removed.
  \<open>below\<close> is what lies under it, \<open>topmost\<close> the same \<open>n\<close> elements in stack
  order.
\<close>

definition window :: "val list \<Rightarrow> nat \<Rightarrow> val list" where
  "window st n = rev (drop (length st - n) st)"

definition below :: "val list \<Rightarrow> nat \<Rightarrow> val list" where
  "below st n = take (length st - n) st"

definition topmost :: "val list \<Rightarrow> nat \<Rightarrow> val list" where
  "topmost st n = drop (length st - n) st"

text \<open>
  The two preconditions of \<^verbatim>\<open>Permute(pop, push)\<close> as the specification
  words them: \<^verbatim>\<open>pop\<close> is at most the size of the stack, and every entry of
  \<^verbatim>\<open>push\<close> lies in \<^verbatim>\<open>[0, pop)\<close>.
\<close>

definition permute_pre :: "Runtime \<Rightarrow> int32 \<Rightarrow> int32 list \<Rightarrow> bool" where
  "permute_pre r Pop ps \<longleftrightarrow>
     sint Pop \<le> int (length (stack_of r)) \<and>
     list_all (\<lambda>e. 0 \<le> sint e \<and> sint e < sint Pop) ps"

text \<open>
  Two families of push lists for a window of \<open>n\<close> elements.

  \<open>cyclic_shift n k\<close> is a cyclic permutation of the index list
  \<^verbatim>\<open>[0, 1, ..., n-1]\<close>: that list rotated by \<open>k\<close> places, for \<open>n = 3\<close>
  the lists \<^verbatim>\<open>[0, 1, 2]\<close>, \<^verbatim>\<open>[1, 2, 0]\<close> and \<^verbatim>\<open>[2, 0, 1]\<close>.

  \<open>rotation n k\<close> is a cyclic relabeling of the identity index list
  \<^verbatim>\<open>[n-1, ..., 1, 0]\<close>: that list rotated by \<open>k\<close> places, for \<open>n = 3\<close>
  the lists \<^verbatim>\<open>[2, 1, 0]\<close>, \<^verbatim>\<open>[1, 0, 2]\<close> and \<^verbatim>\<open>[0, 2, 1]\<close>. The test case
  "roll 3" uses \<^verbatim>\<open>[0, 2, 1]\<close> (\<open>k = 2\<close>) and \<^verbatim>\<open>[1, 0, 2]\<close> (\<open>k = 1\<close>).
\<close>

definition cyclic_shift :: "nat \<Rightarrow> nat \<Rightarrow> int32 list" where
  "cyclic_shift n k = map of_nat (rotate k [0..<n])"

definition rotation :: "nat \<Rightarrow> nat \<Rightarrow> int32 list" where
  "rotation n k = map of_nat (rotate k (rev [0..<n]))"

section \<open>Slice facts\<close>

lemma slice_to_len: "slice_to s (int (len s)) = Some s"
  by (simp add: slice_to_def len_def cap_def)

lemma append_slice_Nil: "append_slice grow s [] = s"
  by (simp add: append_slice_def)

lemma elems_append_slice: "elems (append_slice grow s xs) = elems s @ xs"
  by (simp add: append_slice_def)

lemma get_in_range:
  assumes "0 \<le> sint idx" "sint idx < int (len (Stack r))"
  shows "get r idx = Some (elems (Stack r) ! (len (Stack r) - 1 - nat (sint idx)))"
  using assms by (simp add: get_def slice_index_def nat_diff_distrib' )

lemma permute_loop_in_range:
  assumes "\<forall>e \<in> set ps. 0 \<le> sint e \<and> sint e < sint Pop"
    and "sint Pop \<le> int (len (Stack r))"
  shows "permute_loop r Pop ps acc =
           Inr (acc @ map (\<lambda>e. elems (Stack r) ! (len (Stack r) - 1 - nat (sint e))) ps)"
  using assms
proof (induction ps arbitrary: acc)
  case Nil
  then show ?case by simp
next
  case (Cons e ps)
  then have "get r e = Some (elems (Stack r) ! (len (Stack r) - 1 - nat (sint e)))"
    by (intro get_in_range) auto
  with Cons show ?case by simp
qed

lemma permute_loop_Inl:
  "permute_loop r Pop ps acc = Inl out \<Longrightarrow> out = Failed Err \<or> out = Panicked IndexOutOfRange"
  by (induction ps arbitrary: acc) (auto split: if_splits option.splits)

lemma window_nth:
  assumes "n \<le> length st" "i < n"
  shows "window st n ! i = st ! (length st - 1 - i)"
proof -
  have "window st n ! i = drop (length st - n) st ! (n - 1 - i)"
    using assms by (simp add: window_def rev_nth)
  also have "\<dots> = st ! (length st - 1 - i)"
    using assms by (simp add: algebra_simps) 
  finally show ?thesis .
qed

lemma slice_to_below:
  assumes "0 \<le> p" "p \<le> int (len s)"
  shows "slice_to s (int (len s) - p) =
           Some \<lparr>elems = take (len s - nat p) (elems s),
                 spare = drop (len s - nat p) (elems s) @ spare s\<rparr>"
  using assms by (simp add: slice_to_def len_def cap_def nat_diff_distrib')

lemma Eval_permute_ok:
  assumes pop0: "0 \<le> sint Pop"
    and popn: "sint Pop \<le> int (length (stack_of r))"
    and rng: "\<forall>e \<in> set ps. 0 \<le> sint e \<and> sint e < sint Pop"
  shows "Eval grow r (Permute Pop ps) =
           (Ok, r\<lparr>Stack := \<lparr>elems = below (stack_of r) (nat (sint Pop)) @
                                    map (\<lambda>e. window (stack_of r) (nat (sint Pop)) ! nat (sint e)) ps,
                            spare = spare (append_slice grow
                               \<lparr>elems = below (stack_of r) (nat (sint Pop)),
                                spare = rev (window (stack_of r) (nat (sint Pop))) @ spare (Stack r)\<rparr>
                               (map (\<lambda>e. window (stack_of r) (nat (sint Pop)) ! nat (sint e)) ps))\<rparr>\<rparr>)"
proof -
  let ?st = "stack_of r" and ?n = "nat (sint Pop)"
  have l: "len (Stack r) = length ?st" by (simp add: len_def stack_of_def)
  have n: "?n \<le> length ?st" using pop0 popn by simp
  have "map (\<lambda>e. elems (Stack r) ! (len (Stack r) - 1 - nat (sint e))) ps =
        map (\<lambda>e. window ?st ?n ! nat (sint e)) ps"
  proof (rule map_cong [OF refl])
    fix e assume "e \<in> set ps"
    with rng have "nat (sint e) < ?n" by auto
    with n show "elems (Stack r) ! (len (Stack r) - 1 - nat (sint e)) = window ?st ?n ! nat (sint e)"
      by (simp add: window_nth l) (simp add: stack_of_def)
  qed
  with permute_loop_in_range [OF rng, of r "[]"] popn
  have loop: "permute_loop r Pop ps [] = Inr (map (\<lambda>e. window ?st ?n ! nat (sint e)) ps)"
    by (simp add: l)
  have sl: "slice_to (Stack r) (int (len (Stack r)) - sint Pop) =
              Some \<lparr>elems = below ?st ?n, spare = rev (window ?st ?n) @ spare (Stack r)\<rparr>"
    using slice_to_below [of "sint Pop" "Stack r"] pop0 popn
    by (simp add: l below_def window_def) (simp add: stack_of_def)
  have "\<not> int (len (Stack r)) < sint Pop" using popn by (simp add: l)
  then show ?thesis
    by (simp add: permute_def loop sl) (simp add: append_slice_def)
qed


lemma Eval_Symbols: "Symbols (snd (Eval grow r op)) = Symbols r"
  by (cases op) (auto simp: push_def permute_def split: sum.splits option.splits)

lemma Eval_Log: "Log (snd (Eval grow r op)) = Log r"
  by (cases op) (auto simp: push_def permute_def split: sum.splits option.splits)

lemma Eval_not_Ok: "fst (Eval grow r op) \<noteq> Ok \<Longrightarrow> snd (Eval grow r op) = r"
  by (cases op) (auto simp: push_def permute_def split: sum.splits option.splits if_splits)

lemma Eval_Push_Ok: "fst (Eval grow r (Push i)) = Ok \<longleftrightarrow> sint i < int (length (Symbols r))"
  by (simp add: push_def)

section \<open>What a permute can put on the stack\<close>

lemma get_negative: "sint idx < 0 \<Longrightarrow> get r idx = None"
  by (simp add: get_def slice_index_def)

lemma get_elem: "get r idx = Some v \<Longrightarrow> v \<in> set (elems (Stack r))"
  by (auto simp: get_def slice_index_def len_def split: if_splits)

lemma permute_loop_first_bad:
  assumes "\<forall>e \<in> set good. 0 \<le> sint e \<and> sint e < sint Pop"
    and "sint Pop \<le> int (len (Stack r))"
    and "\<not> (0 \<le> sint bad \<and> sint bad < sint Pop)"
  shows "permute_loop r Pop (good @ bad # rest) acc =
           Inl (if sint Pop \<le> sint bad then Failed Err else Panicked IndexOutOfRange)"
  using assms
proof (induction good arbitrary: acc)
  case Nil
  then show ?case by (auto simp: get_negative)
next
  case (Cons e good)
  then have "get r e = Some (elems (Stack r) ! (len (Stack r) - 1 - nat (sint e)))"
    by (intro get_in_range) auto
  with Cons show ?case by simp
qed

lemma permute_loop_elems:
  "permute_loop r Pop ps acc = Inr pushes \<Longrightarrow> set pushes \<subseteq> set acc \<union> set (elems (Stack r))"
proof (induction ps arbitrary: acc)
  case Nil
  then show ?case by simp
next
  case (Cons e ps)
  then show ?case
    by (fastforce split: if_splits option.splits dest: get_elem)
qed

lemma Eval_Permute_keeps_elems:
  assumes "0 \<le> sint Pop"
  shows "set (stack_of (snd (Eval grow r (Permute Pop ps)))) \<subseteq> set (stack_of r)"
proof (cases "fst (Eval grow r (Permute Pop ps)) = Ok")
  case False
  then show ?thesis using Eval_not_Ok [of grow r "Permute Pop ps"] by simp
next
  case True
  then obtain pushes s where l: "permute_loop r Pop ps [] = Inr pushes"
    and s: "slice_to (Stack r) (int (len (Stack r)) - sint Pop) = Some s"
    and e: "snd (Eval grow r (Permute Pop ps)) = r\<lparr>Stack := append_slice grow s pushes\<rparr>"
    by (auto simp: permute_def split: if_splits sum.splits option.splits
        dest: permute_loop_Inl)
  from s assms have "elems s = take (nat (int (len (Stack r)) - sint Pop)) (elems (Stack r))"
    by (auto simp: slice_to_def len_def split: if_splits)
  then have "set (elems s) \<subseteq> set (elems (Stack r))"
    by (simp add: set_take_subset)
  with permute_loop_elems [OF l] show ?thesis
    unfolding e by (auto simp: stack_of_def elems_append_slice)
qed

lemma Eval_keeps_symbols:
  assumes "list_all is_Symbol (stack_of r)"
    and "\<And>Pop ps. op = Permute Pop ps \<Longrightarrow> 0 \<le> sint Pop"
  shows "list_all is_Symbol (stack_of (snd (Eval grow r op)))"
proof (cases op)
  case (Push i)
  with assms(1) show ?thesis
    by (simp add: push_def stack_of_def elems_append_slice)
next
  case (Permute Pop ps)
  with assms(2) have "0 \<le> sint Pop" by simp
  from Eval_Permute_keeps_elems [OF this, of grow r ps] assms(1) show ?thesis
    unfolding Permute by (auto simp: list_all_iff)
next
  case Unset
  with assms(1) show ?thesis by simp
qed

section \<open>Rotations of the window\<close>

lemma sint_of_nat32: "n < 2 ^ 31 \<Longrightarrow> sint (of_nat n :: int32) = int n"
  by (simp add: signed_of_nat signed_take_bit_int_eq_self)

lemma below_top: "below st n @ topmost st n = st"
  by (simp add: below_def topmost_def)

lemma rev_window: "rev (window st n) = topmost st n"
  by (simp add: window_def topmost_def)

lemma length_top: "n \<le> length st \<Longrightarrow> length (topmost st n) = n"
  by (simp add: topmost_def)

lemma window_rotation:
  assumes "n \<le> length st" "n < 2 ^ 31"
  shows "map (\<lambda>e. window st n ! nat (sint e)) (rotation n k) = rotate k (topmost st n)"
proof -
  have len: "length (window st n) = n" using assms(1) by (simp add: window_def)
  have "map (\<lambda>e. window st n ! nat (sint e)) (rotation n k) =
        map (\<lambda>i. window st n ! nat (sint (of_nat i :: int32))) (rotate k (rev [0..<n]))"
    by (simp add: rotation_def comp_def)
  also have "\<dots> = map ((!) (window st n)) (rotate k (rev [0..<n]))"
  proof (rule map_cong [OF refl])
    fix i assume "i \<in> set (rotate k (rev [0..<n]))"
    then have "i < n" by simp
    with assms(2) show "window st n ! nat (sint (of_nat i :: int32)) = window st n ! i"
      by (simp add: sint_of_nat32)
  qed
  also have "\<dots> = rotate k (rev (map ((!) (window st n)) [0..<length (window st n)]))"
    by (simp add: rotate_map rev_map len)
  also have "\<dots> = rotate k (topmost st n)"
    by (simp only: map_nth rev_window)
  finally show ?thesis .
qed

lemma rotation_in_range:
  assumes "n < 2 ^ 31"
  shows "\<forall>e \<in> set (rotation n k). 0 \<le> sint e \<and> sint e < sint (of_nat n :: int32)"
proof
  fix e assume "e \<in> set (rotation n k)"
  then obtain i where i: "i < n" "e = of_nat i" by (auto simp: rotation_def)
  with assms show "0 \<le> sint e \<and> sint e < sint (of_nat n :: int32)"
    by (simp add: sint_of_nat32)
qed

lemma Eval_rotation:
  assumes "n \<le> length (stack_of r)" "n < 2 ^ 31"
  shows "Eval grow r (Permute (of_nat n) (rotation n k)) =
           (Ok, r\<lparr>Stack := \<lparr>elems = below (stack_of r) n @ rotate k (topmost (stack_of r) n),
                             spare = spare (Stack r)\<rparr>\<rparr>)"
proof -
  have s: "sint (of_nat n :: int32) = int n" using assms(2) by (rule sint_of_nat32)
  have lr: "length (rotation n k) = n" by (simp add: rotation_def)
  have "Eval grow r (Permute (of_nat n) (rotation n k)) =
          (Ok, r\<lparr>Stack := \<lparr>elems = below (stack_of r) n @ rotate k (topmost (stack_of r) n),
                            spare = spare (append_slice grow
                               \<lparr>elems = below (stack_of r) n,
                                spare = topmost (stack_of r) n @ spare (Stack r)\<rparr>
                               (rotate k (topmost (stack_of r) n)))\<rparr>\<rparr>)"
    using Eval_permute_ok [of "of_nat n" r "rotation n k" grow] rotation_in_range [OF assms(2), of k] assms
    by (simp only: s nat_int window_rotation rev_window)
  moreover have "spare (append_slice grow
                               \<lparr>elems = below (stack_of r) n,
                                spare = topmost (stack_of r) n @ spare (Stack r)\<rparr>
                               (rotate k (topmost (stack_of r) n))) = spare (Stack r)"
    using assms(1) by (simp add: append_slice_def length_top)
  ultimately show ?thesis by simp
qed

lemma run_rotations:
  assumes "n \<le> length (stack_of r)" "n < 2 ^ 31"
  shows "run grow r (replicate j (Permute (of_nat n) (rotation n k))) =
           (Ok, r\<lparr>Stack := \<lparr>elems = below (stack_of r) n @ rotate (j * k) (topmost (stack_of r) n),
                             spare = spare (Stack r)\<rparr>\<rparr>)"
  using assms
proof (induction j arbitrary: r)
  case 0
  then show ?case by (simp add: below_top) (simp add: stack_of_def)
next
  case (Suc j)
  let ?r' = "r\<lparr>Stack := \<lparr>elems = below (stack_of r) n @ rotate k (topmost (stack_of r) n),
                             spare = spare (Stack r)\<rparr>\<rparr>"
  have st': "stack_of ?r' = below (stack_of r) n @ rotate k (topmost (stack_of r) n)"
    by (simp add: stack_of_def)
  have lt: "length (topmost (stack_of r) n) = n" using Suc.prems(1) by (rule length_top)
  have len': "length (stack_of ?r') = length (stack_of r)"
    unfolding st' using Suc.prems(1) by (simp add: below_def lt)
  have b': "below (stack_of ?r') n = below (stack_of r) n"
    unfolding st' using Suc.prems(1) by (simp add: below_def lt)
  have t': "topmost (stack_of ?r') n = rotate k (topmost (stack_of r) n)"
    unfolding st' using Suc.prems(1) by (simp add: topmost_def below_def)
  have "n \<le> length (stack_of ?r')" using Suc.prems(1) len' by simp
  from Suc.IH [OF this Suc.prems(2)]
  have "run grow ?r' (replicate j (Permute (of_nat n) (rotation n k))) =
          (Ok, ?r'\<lparr>Stack := \<lparr>elems = below (stack_of r) n @ rotate (j * k) (rotate k (topmost (stack_of r) n)),
                             spare = spare (Stack r)\<rparr>\<rparr>)"
    by (simp only: b' t') simp
  moreover have "run grow r (replicate (Suc j) (Permute (of_nat n) (rotation n k))) =
      run grow ?r' (replicate j (Permute (of_nat n) (rotation n k)))"
    by (simp add: Eval_rotation [OF Suc.prems] del: Eval.simps)
  ultimately show ?case
    by (simp add: rotate_rotate add.commute del: run.simps)
qed

section \<open>The empty permute\<close>

text \<open>
  C9. In every evaluator state, also one whose stack is empty,
  \<^verbatim>\<open>Permute(0, [])\<close> returns nil and leaves the whole state, stack and log
  included, as it was.
\<close>

theorem permute_zero_identity: "Eval grow r (Permute 0 []) = (Ok, r)"
  by (simp add: permute_def slice_to_len append_slice_Nil)

section \<open>Insufficient stack\<close>

text \<open>
  C5. When \<^verbatim>\<open>pop\<close> exceeds the size of the stack, \<^verbatim>\<open>Permute(pop, push)\<close>
  returns the formatted error that reports the requested count and the
  actual size, and the state is unchanged.
\<close>

theorem permute_insufficient_stack:
  assumes "int (length (stack_of r)) < sint Pop"
  shows "Eval grow r (Permute Pop Push_list) =
           (Failed (Errorf ''Cannot permute top %d elements of stack with size %d''
                      [sint Pop, int (length (stack_of r))]), r)"
  using assms by (simp add: permute_def len_def stack_of_def)

theorem permute_insufficient_stack_witness:
  "int (length (stack_of \<lparr>Symbols = [''A''], Stack = \<lparr>elems = [Symbol 0], spare = []\<rparr>,
                         Log = nil_slice\<rparr>)) < sint (2 :: int32)
   \<and> Eval double_cap \<lparr>Symbols = [''A''], Stack = \<lparr>elems = [Symbol 0], spare = []\<rparr>,
                Log = nil_slice\<rparr> (Permute 2 [0, 1]) =
       (Failed (Errorf ''Cannot permute top %d elements of stack with size %d'' [2, 1]),
        \<lparr>Symbols = [''A''], Stack = \<lparr>elems = [Symbol 0], spare = []\<rparr>, Log = nil_slice\<rparr>)"
  using permute_insufficient_stack
    [of "\<lparr>Symbols = [''A''], Stack = \<lparr>elems = [Symbol 0], spare = []\<rparr>, Log = nil_slice\<rparr>"
        2 double_cap "[0, 1]"]
  by (simp add: stack_of_def)

section \<open>Atomicity of failure\<close>

text \<open>
  C4. Whenever \<^verbatim>\<open>Eval\<close> returns an error, the evaluator state after the call
  is the state before it; in particular the stack and the log are the same.
\<close>

theorem failed_instruction_atomic:
  assumes "fst (Eval grow r op) = Failed e"
  shows "snd (Eval grow r op) = r
       \<and> stack_of (snd (Eval grow r op)) = stack_of r
       \<and> log_of (snd (Eval grow r op)) = log_of r"
  using assms Eval_not_Ok [of grow r op] by simp

theorem failed_instruction_atomic_witness:
  "fst (Eval double_cap abcd (Permute 3 [2, 3, 0])) = Failed Err
   \<and> snd (Eval double_cap abcd (Permute 3 [2, 3, 0])) = abcd
   \<and> stack_of (snd (Eval double_cap abcd (Permute 3 [2, 3, 0]))) = stack_of abcd
   \<and> log_of (snd (Eval double_cap abcd (Permute 3 [2, 3, 0]))) = log_of abcd"
proof -
  have h: "fst (Eval double_cap abcd (Permute 3 [2, 3, 0])) = Failed Err"
    by (simp add: permute_def abcd_def len_def get_def slice_index_def)
  from failed_instruction_atomic [OF h] h show ?thesis by simp
qed

section \<open>The semantics of a successful permute\<close>

text \<open>
  C1, for a pop count that is not negative. For every
  state and every \<^verbatim>\<open>Permute(pop, push)\<close> with \<open>0 \<le> pop\<close> that satisfies both
  preconditions, \<^verbatim>\<open>Eval\<close> returns nil; the new stack is the old one without
  its window, followed by \<^verbatim>\<open>window[e]\<close> for each entry \<open>e\<close> of \<^verbatim>\<open>push\<close> in
  order; what lay below the window is still there, in the same order; and the
  size has changed by \<open>len(push) - pop\<close>.
\<close>

theorem permute_window_semantics:
  assumes "0 \<le> sint Pop" and "permute_pre r Pop ps"
  shows "fst (Eval grow r (Permute Pop ps)) = Ok
       \<and> stack_of (snd (Eval grow r (Permute Pop ps))) =
           below (stack_of r) (nat (sint Pop)) @
           map (\<lambda>e. window (stack_of r) (nat (sint Pop)) ! nat (sint e)) ps
       \<and> below (stack_of (snd (Eval grow r (Permute Pop ps)))) (length ps) =
           below (stack_of r) (nat (sint Pop))
       \<and> int (length (stack_of (snd (Eval grow r (Permute Pop ps))))) =
           int (length (stack_of r)) + (int (length ps) - sint Pop)"
proof -
  from assms have popn: "sint Pop \<le> int (length (stack_of r))"
    and rng: "\<forall>e \<in> set ps. 0 \<le> sint e \<and> sint e < sint Pop"
    by (simp_all add: permute_pre_def list_all_iff)
  note ev = Eval_permute_ok [OF assms(1) popn rng, of grow]
  have st: "stack_of (snd (Eval grow r (Permute Pop ps))) =
           below (stack_of r) (nat (sint Pop)) @
           map (\<lambda>e. window (stack_of r) (nat (sint Pop)) ! nat (sint e)) ps"
    unfolding ev by (simp add: stack_of_def)
  have "fst (Eval grow r (Permute Pop ps)) = Ok" unfolding ev by simp
  moreover have "below (stack_of (snd (Eval grow r (Permute Pop ps)))) (length ps) =
           below (stack_of r) (nat (sint Pop))"
    unfolding st by (simp add: below_def)
  moreover have "int (length (stack_of (snd (Eval grow r (Permute Pop ps))))) =
           int (length (stack_of r)) + (int (length ps) - sint Pop)"
    unfolding st using assms(1) popn by (simp add: below_def)
  ultimately show ?thesis using st by blast
qed

theorem permute_window_semantics_witness:
  "0 \<le> sint (3 :: int32) \<and> permute_pre abcd 3 [0, 2, 1]
   \<and> fst (Eval double_cap abcd (Permute 3 [0, 2, 1])) = Ok
   \<and> stack_of (snd (Eval double_cap abcd (Permute 3 [0, 2, 1]))) =
       [Symbol 0, Symbol 3, Symbol 1, Symbol 2]"
proof -
  have h1: "0 \<le> sint (3 :: int32)" by simp
  have h2: "permute_pre abcd 3 [0, 2, 1]"
    by (simp add: permute_pre_def abcd_def stack_of_def)
  have w: "window (stack_of abcd) 3 = [Symbol 3, Symbol 2, Symbol 1]"
    by (simp add: window_def abcd_def stack_of_def)
  have b: "below (stack_of abcd) 3 = [Symbol 0]"
    by (simp add: below_def abcd_def stack_of_def)
  from permute_window_semantics [OF h1 h2, of double_cap] h1 h2 show ?thesis
    by (simp add: w b)
qed

text \<open>
  Without \<open>0 \<le> pop\<close> the two preconditions also admit a negative \<^verbatim>\<open>pop\<close>
  with an empty \<^verbatim>\<open>push\<close>. On a fresh evaluator \<^verbatim>\<open>Permute(-1, [])\<close> passes both
  checks of \<^verbatim>\<open>permute\<close> and then panics in \<^verbatim>\<open>r.Stack[:1]\<close>, the nil slice
  having capacity 0.
\<close>

theorem permute_negative_pop_counterexample:
  "permute_pre (new_Runtime symbols) (- 1) []
   \<and> fst (Eval double_cap (new_Runtime symbols) (Permute (- 1) [])) =
       Panicked SliceBoundsOutOfRange"
  by (simp add: permute_pre_def new_Runtime_def nil_slice_def stack_of_def
      permute_def len_def cap_def slice_to_def)

section \<open>Pushing a negative symbol index\<close>

text \<open>
  C8. For a negative \<^verbatim>\<open>SymbolIdx\<close> the test
  \<^verbatim>\<open>len(r.Symbols) <= int(p.SymbolIdx)\<close> is false whatever the symbol
  table, so \<^verbatim>\<open>Push(i)\<close> returns nil and appends \<^verbatim>\<open>Symbol(i)\<close>.
\<close>

theorem push_negative_index:
  assumes "sint i < 0"
  shows "fst (Eval grow r (Push i)) = Ok
       \<and> stack_of (snd (Eval grow r (Push i))) = stack_of r @ [Symbol (sint i)]"
  using assms by (simp add: push_def stack_of_def elems_append_slice)

theorem push_negative_index_witness:
  "sint (- 1 :: int32) < 0
   \<and> fst (Eval double_cap (new_Runtime symbols) (Push (- 1))) = Ok
   \<and> stack_of (snd (Eval double_cap (new_Runtime symbols) (Push (- 1)))) = [Symbol (- 1)]"
proof -
  have h: "sint (- 1 :: int32) < 0" by simp
  from push_negative_index [OF h, of double_cap "new_Runtime symbols"] h show ?thesis
    by (simp add: new_Runtime_def nil_slice_def stack_of_def)
qed

section \<open>The lower bound of a symbol index\<close>

text \<open>
  C2. \<^verbatim>\<open>Push(i)\<close> is to succeed exactly when \<open>0 \<le> i < len(symbols)\<close> and to
  return the error otherwise. The test in \<^verbatim>\<open>push\<close> compares the index with the
  length of the table only (\<open>Eval_Push_Ok\<close>), so on the five-symbol table of
  the tests the index \<open>-1\<close> is accepted and \<^verbatim>\<open>Symbol(-1)\<close> is on the stack
  afterwards.
\<close>

theorem push_minus_one_accepted:
  "Eval double_cap (new_Runtime symbols) (Push (- 1)) =
     (Ok, \<lparr>Symbols = symbols, Stack = \<lparr>elems = [Symbol (- 1)], spare = []\<rparr>, Log = nil_slice\<rparr>)"
  by (simp add: push_def new_Runtime_def symbols_def nil_slice_def append_slice_def
      double_cap_def len_def cap_def)

section \<open>The lower bound of a window index\<close>

text \<open>
  C3. A window index outside \<^verbatim>\<open>[0, pop)\<close> is to be answered with the error
  value. The loop of \<^verbatim>\<open>permute\<close> tests \<^verbatim>\<open>p.Pop <= idx\<close> only; a negative
  index passes and reaches \<^verbatim>\<open>get\<close>, where the slice index
  \<^verbatim>\<open>len(r.Stack)-1-int(idx)\<close> is beyond the stack, so the call panics
  instead of returning an error (\<open>permute_loop_first_bad\<close> gives the outcome
  for every push list in terms of its first entry outside the window). On
  the stack \<^verbatim>\<open>[A]\<close>, \<^verbatim>\<open>Permute(1, [-1])\<close> panics; the stack is left as it
  was.
\<close>

theorem permute_negative_entry_panics:
  "run double_cap (new_Runtime symbols) [Push 0, Permute 1 [- 1]] =
     (Panicked IndexOutOfRange,
      \<lparr>Symbols = symbols, Stack = \<lparr>elems = [Symbol 0], spare = []\<rparr>, Log = nil_slice\<rparr>)"
  by (simp add: push_def permute_def get_def slice_index_def new_Runtime_def symbols_def
      nil_slice_def append_slice_def double_cap_def len_def cap_def)

section \<open>The lower bound of the pop count\<close>

text \<open>
  C7. \<^verbatim>\<open>Eval\<close> never touches the symbol table or the log
  (\<open>Eval_Symbols\<close>, \<open>Eval_Log\<close>), and a push or a permute with a
  non-negative pop count leaves a stack of symbols a stack of symbols
  (\<open>Eval_keeps_symbols\<close>). A negative pop count passes the test
  \<^verbatim>\<open>len(r.Stack) < int(p.Pop)\<close>, and with an empty push list
  \<^verbatim>\<open>r.Stack[:len(r.Stack)-int(p.Pop)]\<close> lengthens the stack into the spare
  capacity of its backing array. After three pushes onto a fresh evaluator the
  array has four slots, and \<^verbatim>\<open>Permute(-1, [])\<close> returns nil with the nil value
  of the fourth slot on top of the stack.
\<close>

theorem permute_negative_pop_exposes_nil:
  "run double_cap (new_Runtime symbols) [Push 0, Push 0, Push 0] = (Ok, aaa)
   \<and> list_all is_Symbol (stack_of aaa)
   \<and> Eval double_cap aaa (Permute (- 1) []) =
       (Ok, aaa\<lparr>Stack := \<lparr>elems = [Symbol 0, Symbol 0, Symbol 0, NilValue], spare = []\<rparr>\<rparr>)
   \<and> \<not> list_all is_Symbol
         (stack_of (aaa\<lparr>Stack := \<lparr>elems = [Symbol 0, Symbol 0, Symbol 0, NilValue],
                                  spare = []\<rparr>\<rparr>))"
  by (simp add: push_def permute_def slice_to_def new_Runtime_def symbols_def aaa_def
      nil_slice_def append_slice_def double_cap_def len_def cap_def stack_of_def)

section \<open>One sentinel for two kinds of failure\<close>

text \<open>
  C10. Whenever \<^verbatim>\<open>Push\<close> returns an error it is \<^verbatim>\<open>Err\<close>. Whenever
  \<^verbatim>\<open>Permute\<close> returns an error, it is the formatted message if the pop count
  exceeds the stack size, which differs from the error of \<^verbatim>\<open>Push\<close>, and
  otherwise (a window index at or above the pop count) the very error
  \<^verbatim>\<open>Push\<close> returns.
\<close>

theorem sentinel_shared:
  assumes "fst (Eval grow r (Push i)) = Failed e"
    and "fst (Eval grow' r' (Permute Pop ps)) = Failed e'"
  shows "e = Err
       \<and> (if int (length (stack_of r')) < sint Pop
          then e' = Errorf ''Cannot permute top %d elements of stack with size %d''
                      [sint Pop, int (length (stack_of r'))] \<and> e' \<noteq> e
          else e' = e)"
proof -
  from assms(1) have e: "e = Err"
    by (auto simp: push_def split: if_splits)
  from assms(2) have "if int (length (stack_of r')) < sint Pop
          then e' = Errorf ''Cannot permute top %d elements of stack with size %d''
                      [sint Pop, int (length (stack_of r'))] \<and> e' \<noteq> Err
          else e' = Err"
    by (auto simp: permute_def stack_of_def len_def Err_def
        split: sum.splits option.splits if_splits dest: permute_loop_Inl)
  with e show ?thesis by (auto simp: Err_def)
qed

theorem sentinel_shared_witness:
  "fst (Eval double_cap (new_Runtime symbols) (Push 10)) = Failed Err
   \<and> fst (Eval double_cap abcd (Permute 3 [2, 3, 0])) = Failed Err
   \<and> \<not> int (length (stack_of abcd)) < sint (3 :: int32)
   \<and> fst (Eval double_cap (new_Runtime symbols) (Permute 1 [])) =
        Failed (Errorf ''Cannot permute top %d elements of stack with size %d'' [1, 0])
   \<and> Errorf ''Cannot permute top %d elements of stack with size %d'' [1, 0] \<noteq> Err"
proof -
  have h1: "fst (Eval double_cap (new_Runtime symbols) (Push 10)) = Failed Err"
    by (simp add: push_def new_Runtime_def symbols_def)
  have h2: "fst (Eval double_cap abcd (Permute 3 [2, 3, 0])) = Failed Err"
    by (simp add: permute_def abcd_def len_def get_def slice_index_def)
  have h3: "fst (Eval double_cap (new_Runtime symbols) (Permute 1 [])) =
        Failed (Errorf ''Cannot permute top %d elements of stack with size %d'' [1, 0])"
    by (simp add: permute_def new_Runtime_def nil_slice_def len_def)
  have n: "\<not> int (length (stack_of abcd)) < sint (3 :: int32)"
    by (simp add: abcd_def stack_of_def)
  have m: "int (length (stack_of (new_Runtime symbols))) < sint (1 :: int32)"
    by (simp add: new_Runtime_def nil_slice_def stack_of_def)
  from sentinel_shared [OF h1 h2] sentinel_shared [OF h1 h3] h1 h2 h3 n m show ?thesis
    by simp
qed

section \<open>Rotation period\<close>

text \<open>
  C6, for the rotations of the identity index list. Let the stack hold at
  least \<open>n\<close> elements and let the push list be \<open>rotation n k\<close>, the identity
  index list \<^verbatim>\<open>[n-1, ..., 1, 0]\<close> rotated by any \<open>k\<close>. Applying
  \<^verbatim>\<open>Permute(n, push)\<close> \<open>n\<close> times in succession succeeds every time and ends
  in the state it started from, so the window and the whole stack are in their
  original order. (\<open>n\<close> has to fit the signed 32-bit field \<^verbatim>\<open>Pop\<close>.)
\<close>

theorem rotation_period:
  assumes "n \<le> length (stack_of r)" and "n < 2 ^ 31"
  shows "run grow r (replicate n (Permute (of_nat n) (rotation n k))) = (Ok, r)"
proof -
  have "rotate (n * k) (topmost (stack_of r) n) = topmost (stack_of r) n"
    using assms(1) by (intro rotate_id) (simp add: length_top)
  then show ?thesis
    by (simp add: run_rotations [OF assms] below_top) (simp add: stack_of_def)
qed

theorem rotation_period_witness:
  "3 \<le> length (stack_of abcd) \<and> (3 :: nat) < 2 ^ 31
   \<and> rotation 3 2 = [0, 2, 1]
   \<and> run double_cap abcd [Permute 3 [0, 2, 1], Permute 3 [0, 2, 1], Permute 3 [0, 2, 1]] = (Ok, abcd)"
proof -
  have h1: "3 \<le> length (stack_of abcd)" by (simp add: abcd_def stack_of_def)
  have h2: "(3 :: nat) < 2 ^ 31" by simp
  have r: "rotation 3 2 = [0, 2, 1]" by (simp add: rotation_def upt_rec rotate_def numeral_2_eq_2 rotate1_def)
  have rep: "replicate 3 x = [x, x, x]" for x :: Operation
    by (simp add: numeral_3_eq_3)
  have "run double_cap abcd (replicate 3 (Permute (of_nat 3) (rotation 3 2))) = (Ok, abcd)"
    using h1 h2 by (rule rotation_period)
  then have "run double_cap abcd [Permute 3 [0, 2, 1], Permute 3 [0, 2, 1], Permute 3 [0, 2, 1]] = (Ok, abcd)"
    unfolding rep r by simp
  with h1 h2 r show ?thesis by blast
qed

text \<open>
  For a cyclic permutation of the index list \<^verbatim>\<open>[0, 1, ..., n-1]\<close> itself the
  period is not \<open>n\<close>. On the stack \<^verbatim>\<open>[A, B, C, D]\<close> the push list
  \<^verbatim>\<open>[1, 2, 0]\<close> with \<^verbatim>\<open>pop = 3\<close> swaps the two lower elements of the window;
  three applications succeed and leave \<^verbatim>\<open>[A, C, B, D]\<close>.
\<close>

theorem cyclic_shift_period_counterexample:
  "cyclic_shift 3 1 = [1, 2, 0]
   \<and> 3 \<le> length (stack_of abcd)
   \<and> run double_cap abcd
         [Permute 3 (cyclic_shift 3 1), Permute 3 (cyclic_shift 3 1), Permute 3 (cyclic_shift 3 1)] =
       (Ok, abcd\<lparr>Stack := \<lparr>elems = [Symbol 0, Symbol 2, Symbol 1, Symbol 3], spare = []\<rparr>\<rparr>)
   \<and> stack_of (abcd\<lparr>Stack := \<lparr>elems = [Symbol 0, Symbol 2, Symbol 1, Symbol 3], spare = []\<rparr>\<rparr>)
       \<noteq> stack_of abcd
   \<and> window (stack_of (abcd\<lparr>Stack := \<lparr>elems = [Symbol 0, Symbol 2, Symbol 1, Symbol 3], spare = []\<rparr>\<rparr>)) 3
       \<noteq> window (stack_of abcd) 3"
proof -
  have c: "cyclic_shift 3 1 = [1, 2, 0]"
    by (simp add: cyclic_shift_def upt_rec numeral_3_eq_3)
  show ?thesis
    unfolding c
    by (simp add: permute_def get_def slice_index_def slice_to_def append_slice_def
        abcd_def len_def cap_def stack_of_def window_def)
qed

end
